theory Spec2Isabelle
  imports Main
begin

section \<open>The sequence identifier allocator of app/utils/sequence.py\<close>

text \<open>
  The module keeps named counters in the table \<open>id_sequences\<close> and hands out the next
  value of a counter, raw or formatted. The embedding follows the Python text statement by
  statement: every SQL statement is a function on a session, every \<open>raise\<close> is an
  \<open>Inl\<close> result, and everything the code takes from outside (the random generator,
  the database clock, the local clock) is an explicit argument.
\<close>

subsection \<open>Library functions the module calls\<close>

text \<open>
  \<open>str(n)\<close> for a Python integer: decimal digits, a leading minus for a negative number.
\<close>

definition digit_char :: "nat \<Rightarrow> char" where
  "digit_char d = ''0123456789'' ! d"

fun str_nat :: "nat \<Rightarrow> string" where
  "str_nat n = (if n < 10 then [digit_char n] else str_nat (n div 10) @ [digit_char (n mod 10)])"

declare str_nat.simps [simp del]

definition py_str :: "int \<Rightarrow> string" where
  "py_str n = (if n < 0 then CHR ''-'' # str_nat (nat (- n)) else str_nat (nat n))"

text \<open>
  \<open>s.zfill(width)\<close>: a string already \<open>width\<close> long is returned as it is; otherwise
  zeros are put on the left, after a leading sign when there is one.
\<close>

definition zfill :: "nat \<Rightarrow> string \<Rightarrow> string" where
  "zfill width s =
     (if width \<le> length s then s
      else (case s of
              [] \<Rightarrow> replicate width CHR ''0''
            | c # rest \<Rightarrow>
                if c = CHR ''+'' \<or> c = CHR ''-''
                then c # replicate (width - length s) CHR ''0'' @ rest
                else replicate (width - length s) CHR ''0'' @ s))"

text \<open>
  \<open>random.randint(a, b)\<close> is \<open>randrange(a, b + 1)\<close>: with \<open>width = b + 1 - a\<close> it
  returns \<open>a + _randbelow(width)\<close> when \<open>width > 0\<close> and raises ValueError on an empty
  range. The generator's output is the argument \<open>r\<close>; \<open>_randbelow\<close> yields a number
  below its bound, here the residue of \<open>r\<close>.
\<close>

datatype error = ValueError string | IntegrityError string

definition randbelow :: "nat \<Rightarrow> nat \<Rightarrow> nat" where
  "randbelow n r = r mod n"

definition randint :: "int \<Rightarrow> int \<Rightarrow> nat \<Rightarrow> error + int" where
  "randint a b r =
     (let width = b + 1 - a
      in if 0 < width then Inr (a + int (randbelow (nat width) r))
         else Inl (ValueError ''empty range for randrange()''))"

text \<open>
  \<open>datetime.now().strftime(fmt)\<close>. The local time is broken down into its fields, which
  a datetime keeps in range (\<open>valid_time\<close>). Rendered here are the formats made of printable
  ASCII characters and of the conversions \<open>%y %m %d %H %M %S\<close>, each of which the C standard
  fixes as two decimal digits. Any other format (another conversion, a flag or a modifier
  after the percent sign, a percent sign at the very end, a NUL or a character outside
  printable ASCII) is rendered by the platform's C library: \<open>libc\<close> is what the library
  returns for the time and the whole format.
\<close>

record local_time =
  lt_year :: nat
  lt_month :: nat
  lt_day :: nat
  lt_hour :: nat
  lt_minute :: nat
  lt_second :: nat

definition valid_time :: "local_time \<Rightarrow> bool" where
  "valid_time t =
     (1 \<le> lt_year t \<and> lt_year t \<le> 9999 \<and> 1 \<le> lt_month t \<and> lt_month t \<le> 12
      \<and> 1 \<le> lt_day t \<and> lt_day t \<le> 31 \<and> lt_hour t < 24 \<and> lt_minute t < 60
      \<and> lt_second t < 60)"

definition plain_char :: "char \<Rightarrow> bool" where
  "plain_char c = (c \<noteq> CHR ''%'' \<and> 32 \<le> (of_char c :: nat) \<and> (of_char c :: nat) \<le> 126)"

fun simple_format :: "string \<Rightarrow> bool" where
  "simple_format [] = True"
| "simple_format [c] = plain_char c"
| "simple_format (c # d # cs) =
     (if c = CHR ''%'' then d \<in> set ''ymdHMS'' \<and> simple_format cs
      else plain_char c \<and> simple_format (d # cs))"

definition two_digits :: "nat \<Rightarrow> string" where
  "two_digits n = zfill 2 (str_nat n)"

definition directive :: "local_time \<Rightarrow> char \<Rightarrow> string" where
  "directive t d =
     (if d = CHR ''y'' then two_digits (lt_year t mod 100)
      else if d = CHR ''m'' then two_digits (lt_month t)
      else if d = CHR ''d'' then two_digits (lt_day t)
      else if d = CHR ''H'' then two_digits (lt_hour t)
      else if d = CHR ''M'' then two_digits (lt_minute t)
      else two_digits (lt_second t))"

fun render_simple :: "local_time \<Rightarrow> string \<Rightarrow> string" where
  "render_simple t [] = []"
| "render_simple t [c] = [c]"
| "render_simple t (c # d # cs) =
     (if c = CHR ''%'' then directive t d @ render_simple t cs
      else c # render_simple t (d # cs))"

definition strftime :: "(local_time \<Rightarrow> string \<Rightarrow> string) \<Rightarrow> local_time \<Rightarrow> string \<Rightarrow> string" where
  "strftime libc t fmt =
     (if valid_time t \<and> simple_format fmt then render_simple t fmt else libc t fmt)"

subsection \<open>The table and the session\<close>

text \<open>
  One row of \<open>id_sequences\<close>. The columns are those the INSERT statement of
  \<open>init_sequence\<close> names; \<open>seq_key\<close> is the key of the map below. Timestamps are the
  database clock's readings.
\<close>

record seq_row =
  current_value :: int
  step_min :: int
  step_max :: int
  prefix :: "string option"
  description :: "string option"
  create_time :: nat
  update_time :: nat

type_synonym seq_table = "string \<rightharpoonup> seq_row"

datatype tx_event = COMMIT | ROLLBACK

text \<open>
  The AsyncSession the caller passes in: the rows that are committed, the rows as the open
  transaction sees them (committed rows and its own writes), the row locks the transaction
  holds, and the commits and rollbacks issued on the session so far.
\<close>

record session =
  committed :: seq_table
  pending :: seq_table
  locks :: "string set"
  tx_log :: "tx_event list"

text \<open>
  \<open>SELECT current_value, step_min, step_max, prefix FROM id_sequences WHERE seq_key = :key
  FOR UPDATE\<close> followed by \<open>fetchone()\<close>: the four columns of the row, which is then
  locked until the transaction ends, or None.
\<close>

definition select_for_update ::
  "string \<Rightarrow> session \<Rightarrow> (int \<times> int \<times> int \<times> string option) option \<times> session" where
  "select_for_update key s =
     (case pending s key of
        None \<Rightarrow> (None, s)
      | Some r \<Rightarrow> (Some (current_value r, step_min r, step_max r, prefix r),
                   s\<lparr>locks := insert key (locks s)\<rparr>))"

text \<open>
  \<open>UPDATE id_sequences SET current_value = :new_value, update_time = NOW() WHERE
  seq_key = :key\<close>.
\<close>

definition update_current_value :: "string \<Rightarrow> int \<Rightarrow> nat \<Rightarrow> session \<Rightarrow> session" where
  "update_current_value key new_value now s =
     (case pending s key of
        None \<Rightarrow> s
      | Some r \<Rightarrow> s\<lparr>pending := (pending s)(key \<mapsto> r\<lparr>current_value := new_value, update_time := now\<rparr>)\<rparr>)"

text \<open>\<open>SELECT 1 FROM id_sequences WHERE seq_key = :key\<close> followed by \<open>fetchone()\<close>.\<close>

definition select_one :: "string \<Rightarrow> session \<Rightarrow> bool" where
  "select_one key s = (pending s key \<noteq> None)"

text \<open>
  Modelled from the spec: the declaration of the table \<open>id_sequences\<close> is not among the
  sources; by the spec \<open>key\<close> is the unique primary key of a row and a duplicate insert is
  rejected by the store's uniqueness constraint. The INSERT statement of \<open>init_sequence\<close>
  therefore fails on a key that has a row and adds the row otherwise.
\<close>

definition insert_row :: "string \<Rightarrow> seq_row \<Rightarrow> session \<Rightarrow> (error + unit) \<times> session" where
  "insert_row key r s =
     (if key \<in> dom (pending s)
      then (Inl (IntegrityError key), s)
      else (Inr (), s\<lparr>pending := (pending s)(key \<mapsto> r)\<rparr>))"

text \<open>\<open>db.commit()\<close>: the transaction's writes become the committed rows, its locks go.\<close>

definition commit :: "session \<Rightarrow> session" where
  "commit s = s\<lparr>committed := pending s, locks := {}, tx_log := tx_log s @ [COMMIT]\<rparr>"

text \<open>
  Every \<open>await\<close> hands control to other tasks and processes. \<open>others_commit rows\<close> is
  what this session sees when other transactions insert \<open>rows\<close> and commit while it is
  suspended; with \<open>Map.empty\<close> nothing happened.
\<close>

definition others_commit :: "seq_table \<Rightarrow> session \<Rightarrow> session" where
  "others_commit rows s = s\<lparr>committed := committed s ++ rows, pending := pending s ++ rows\<rparr>"

subsection \<open>SeqKey and SEQ_INIT_CONFIG\<close>

datatype SeqKey = USER_ID | ORDER_NO

fun SeqKey_value :: "SeqKey \<Rightarrow> string" where
  "SeqKey_value USER_ID = ''user_id''"
| "SeqKey_value ORDER_NO = ''order_no''"

text \<open>The argument \<open>seq_key: str | SeqKey\<close> and the first line of both functions.\<close>

datatype seq_key_arg = Member SeqKey | Str string

fun key_of :: "seq_key_arg \<Rightarrow> string" where
  "key_of (Member k) = SeqKey_value k"
| "key_of (Str s) = s"

text \<open>The two descriptions are Chinese text; these are their UTF-8 bytes.\<close>

definition user_id_description :: string where
  "user_id_description =
     [CHR 0xE7, CHR 0x94, CHR 0xA8, CHR 0xE6, CHR 0x88, CHR 0xB7, CHR 0x49, CHR 0x44]"

definition order_no_description :: string where
  "order_no_description =
     [CHR 0xE5, CHR 0x85, CHR 0x85, CHR 0xE5, CHR 0x80, CHR 0xBC, CHR 0xE8, CHR 0xAE, CHR 0xA2,
      CHR 0xE5, CHR 0x8D, CHR 0x95, CHR 0xE5, CHR 0x8F, CHR 0xB7]"

text \<open>
  \<open>SEQ_INIT_CONFIG\<close>, built once when the module is imported; \<open>seed\<close> is the generator's
  output for the \<open>random.randint(1_000_000, 1_001_000)\<close> of the first entry. SeqKey mixes
  in \<open>str\<close>, so a member hashes and compares as its value and \<open>.get(key)\<close> with the plain
  string finds the member's entry.
\<close>

type_synonym seq_config = "int \<times> int \<times> int \<times> string option \<times> string option"

definition SEQ_INIT_CONFIG :: "nat \<Rightarrow> string \<rightharpoonup> seq_config" where
  "SEQ_INIT_CONFIG seed =
     [SeqKey_value USER_ID \<mapsto>
        (1000000 + int (randbelow 1001 seed), 1, 20, None, Some user_id_description),
      SeqKey_value ORDER_NO \<mapsto> (1, 1, 1, Some ''ORD'', Some order_no_description)]"

subsection \<open>generate_sequence_id\<close>

text \<open>What the function takes from outside on one call.\<close>

record gen_env =
  rand :: nat
  db_now :: nat
  clock :: local_time
  platform :: "local_time \<Rightarrow> string \<Rightarrow> string"

datatype seq_id = IntId int | StrId string

definition default_datetime_format :: string where
  "default_datetime_format = ''%y%m%d%H%M''"

text \<open>Lines 44 and 45: the step.\<close>

definition choose_step :: "int \<Rightarrow> int \<Rightarrow> nat \<Rightarrow> error + int" where
  "choose_step smin smax r = (if smin = smax then Inr smin else randint smin smax r)"

text \<open>
  Lines 53 to 62: the value returned. \<open>if with_prefix and prefix\<close> is false for a
  prefix that is None or the empty string.
\<close>

definition truthy :: "string option \<Rightarrow> bool" where
  "truthy p = (case p of None \<Rightarrow> False | Some x \<Rightarrow> x \<noteq> [])"

definition render ::
  "bool \<Rightarrow> bool \<Rightarrow> string \<Rightarrow> string option \<Rightarrow> gen_env \<Rightarrow> int \<Rightarrow> seq_id" where
  "render with_prefix with_datetime datetime_format pfx env new_value =
     (if \<not> with_prefix \<and> \<not> with_datetime then IntId new_value
      else
        (let parts = [];
             parts = (if with_prefix \<and> truthy pfx then parts @ [the pfx] else parts);
             parts = (if with_datetime
                      then parts @ [strftime (platform env) (clock env) datetime_format]
                      else parts);
             parts = parts @ [zfill 6 (py_str new_value)]
         in StrId (concat parts)))"

definition not_found :: "string \<Rightarrow> error" where
  "not_found key = ValueError (''Sequence '' @ [CHR 0x27] @ key @ [CHR 0x27] @ '' not found'')"

definition generate_sequence_id ::
  "session \<Rightarrow> seq_key_arg \<Rightarrow> bool \<Rightarrow> bool \<Rightarrow> string \<Rightarrow> gen_env \<Rightarrow> (error + seq_id) \<times> session" where
  "generate_sequence_id db seq_key with_prefix with_datetime datetime_format env =
     (let key = key_of seq_key;
          (row, db1) = select_for_update key db
      in case row of
           None \<Rightarrow> (Inl (not_found key), db1)
         | Some (cur, smin, smax, pfx) \<Rightarrow>
             (case choose_step smin smax (rand env) of
                Inl e \<Rightarrow> (Inl e, db1)
              | Inr step \<Rightarrow>
                  (let new_value = cur + step;
                       db2 = update_current_value key new_value (db_now env) db1
                   in (Inr (render with_prefix with_datetime datetime_format pfx env new_value),
                       db2))))"

text \<open>
  Calls one after the other on the same session and key, each with no formatting option:
  the values they return, in order, and the session afterwards.
\<close>

fun allocations ::
  "session \<Rightarrow> seq_key_arg \<Rightarrow> gen_env list \<Rightarrow> (error + seq_id) list \<times> session" where
  "allocations db seq_key [] = ([], db)"
| "allocations db seq_key (env # envs) =
     (let (res, db1) = generate_sequence_id db seq_key False False default_datetime_format env;
          (ress, db2) = allocations db1 seq_key envs
      in (res # ress, db2))"

subsection \<open>init_sequence\<close>

text \<open>
  \<open>rows\<close> are the rows other transactions commit between the presence check and the
  INSERT, both of which are awaited; \<open>now\<close> is the database clock at the INSERT.
\<close>

text \<open>
  Lines 77 to 79: an entry of \<open>SEQ_INIT_CONFIG\<close> replaces all five values the caller
  gave (a tuple of five is never false, so \<open>if config\<close> holds whenever \<open>.get\<close> finds
  an entry).
\<close>

definition effective_config :: "nat \<Rightarrow> string \<Rightarrow> seq_config \<Rightarrow> seq_config" where
  "effective_config seed key given =
     (case SEQ_INIT_CONFIG seed key of Some config \<Rightarrow> config | None \<Rightarrow> given)"

text \<open>The VALUES clause of the INSERT statement.\<close>

fun row_of_config :: "seq_config \<Rightarrow> nat \<Rightarrow> seq_row" where
  "row_of_config (cv, smin, smax, pfx, desc) now =
     \<lparr>current_value = cv, step_min = smin, step_max = smax, prefix = pfx,
      description = desc, create_time = now, update_time = now\<rparr>"

definition init_sequence ::
  "nat \<Rightarrow> session \<Rightarrow> seq_key_arg \<Rightarrow> int \<Rightarrow> int \<Rightarrow> int \<Rightarrow> string option \<Rightarrow> string option
     \<Rightarrow> seq_table \<Rightarrow> nat \<Rightarrow> (error + unit) \<times> session" where
  "init_sequence seed db seq_key cv smin smax pfx desc rows now =
     (let key = key_of seq_key
      in if select_one key db then (Inr (), db)
         else
           (let config = effective_config seed key (cv, smin, smax, pfx, desc);
                db1 = others_commit rows db
            in case insert_row key (row_of_config config now) db1 of
                 (Inl e, db2) \<Rightarrow> (Inl e, db2)
               | (Inr u, db2) \<Rightarrow> (Inr (), commit db2)))"

subsection \<open>Sample data\<close>

text \<open>
  A table with the two predefined sequences (the order counter at 0, fixed step 1, prefix
  ORD; the user counter with steps from 1 to 20), a session on it with nothing pending, an
  empty session, and the outside world at 15:30 on 23 December 2023.
\<close>

definition order_row :: seq_row where
  "order_row = \<lparr>current_value = 0, step_min = 1, step_max = 1, prefix = Some ''ORD'',
      description = Some order_no_description, create_time = 0, update_time = 0\<rparr>"

definition user_row :: seq_row where
  "user_row = \<lparr>current_value = 1000000, step_min = 1, step_max = 20, prefix = None,
      description = Some user_id_description, create_time = 0, update_time = 0\<rparr>"

definition sample_table :: seq_table where
  "sample_table = [''order_no'' \<mapsto> order_row, ''user_id'' \<mapsto> user_row]"

definition sample_db :: session where
  "sample_db = \<lparr>committed = sample_table, pending = sample_table, locks = {}, tx_log = []\<rparr>"

definition empty_db :: session where
  "empty_db = \<lparr>committed = Map.empty, pending = Map.empty, locks = {}, tx_log = []\<rparr>"

definition sample_clock :: local_time where
  "sample_clock = \<lparr>lt_year = 2023, lt_month = 12, lt_day = 23, lt_hour = 15,
      lt_minute = 30, lt_second = 0\<rparr>"

definition sample_env :: "nat \<Rightarrow> gen_env" where
  "sample_env x = \<lparr>rand = x, db_now = 7, clock = sample_clock, platform = (\<lambda>t fmt. [])\<rparr>"

section \<open>Properties\<close>

subsection \<open>Auxiliary facts\<close>

text \<open>
  The generator's residue stays below its bound, so \<open>randint\<close> and the step stay in
  their range; with bounds in order a step is always found.
\<close>

lemma randbelow_less: "0 < n \<Longrightarrow> randbelow n r < n"
  by (simp add: randbelow_def)

lemma randint_range:
  assumes "randint a b x = Inr s"
  shows "a \<le> s \<and> s \<le> b"
proof -
  have w: "0 < b + 1 - a" and s: "s = a + int (randbelow (nat (b + 1 - a)) x)"
    using assms by (auto simp: randint_def Let_def split: if_splits)
  have "randbelow (nat (b + 1 - a)) x < nat (b + 1 - a)"
    using w by (intro randbelow_less) simp
  then show ?thesis using s w by linarith
qed

lemma choose_step_range: "choose_step a b x = Inr s \<Longrightarrow> a \<le> s \<and> s \<le> b"
  by (auto simp: choose_step_def dest: randint_range split: if_splits)

lemma choose_step_defined: "a \<le> b \<Longrightarrow> \<exists>s. choose_step a b x = Inr s"
  by (simp add: choose_step_def randint_def Let_def)

lemma generate_sequence_id_found:
  assumes "pending db (key_of k) = Some r"
  shows "generate_sequence_id db k wp wd fmt env =
    (case choose_step (step_min r) (step_max r) (rand env) of
       Inl e \<Rightarrow> (Inl e, db\<lparr>locks := insert (key_of k) (locks db)\<rparr>)
     | Inr step \<Rightarrow>
         (Inr (render wp wd fmt (prefix r) env (current_value r + step)),
          db\<lparr>locks := insert (key_of k) (locks db),
             pending := (pending db)(key_of k \<mapsto>
               r\<lparr>current_value := current_value r + step, update_time := db_now env\<rparr>)\<rparr>))"
  using assms
  by (simp add: generate_sequence_id_def select_for_update_def update_current_value_def Let_def
      split: sum.splits)

lemma generate_sequence_id_missing:
  assumes "pending db (key_of k) = None"
  shows "generate_sequence_id db k wp wd fmt env = (Inl (not_found (key_of k)), db)"
  using assms by (simp add: generate_sequence_id_def select_for_update_def Let_def)

lemma allocations_increasing:
  assumes "pending db (key_of k) = Some r" "1 \<le> step_min r" "step_min r \<le> step_max r"
  shows "\<exists>vs db' r'. allocations db k envs = (map (\<lambda>v. Inr (IntId v)) vs, db')
           \<and> length vs = length envs
           \<and> sorted_wrt (<) (current_value r # vs)
           \<and> pending db' (key_of k) = Some r'
           \<and> current_value r' = last (current_value r # vs)"
  using assms
proof (induction envs arbitrary: db r)
  case Nil
  then show ?case by simp
next
  case (Cons env envs)
  obtain step where st: "choose_step (step_min r) (step_max r) (rand env) = Inr step"
    using choose_step_defined[OF Cons.prems(3)] by blast
  have rng: "step_min r \<le> step" using choose_step_range[OF st] by simp
  define r1 where "r1 = r\<lparr>current_value := current_value r + step, update_time := db_now env\<rparr>"
  define db1 where "db1 = db\<lparr>locks := insert (key_of k) (locks db),
             pending := (pending db)(key_of k \<mapsto> r1)\<rparr>"
  have g: "generate_sequence_id db k False False default_datetime_format env
             = (Inr (IntId (current_value r + step)), db1)"
    using generate_sequence_id_found[OF Cons.prems(1)] st
    by (simp add: render_def db1_def r1_def)
  have p1: "pending db1 (key_of k) = Some r1" by (simp add: db1_def)
  have b1: "1 \<le> step_min r1" "step_min r1 \<le> step_max r1"
    using Cons.prems by (simp_all add: r1_def)
  obtain vs db' r' where ih: "allocations db1 k envs = (map (\<lambda>v. Inr (IntId v)) vs, db')"
      "length vs = length envs" "sorted_wrt (<) (current_value r1 # vs)"
      "pending db' (key_of k) = Some r'" "current_value r' = last (current_value r1 # vs)"
    using Cons.IH[OF p1 b1] by blast
  have c1: "current_value r1 = current_value r + step" by (simp add: r1_def)
  have lt: "current_value r < current_value r1" using c1 rng Cons.prems(2) by simp
  have "allocations db k (env # envs) = (map (\<lambda>v. Inr (IntId v)) (current_value r1 # vs), db')"
    using g ih(1) c1 by simp
  moreover have "sorted_wrt (<) (current_value r # current_value r1 # vs)"
    using ih(3) lt by auto
  moreover have "current_value r' = last (current_value r # current_value r1 # vs)"
    using ih(5) by simp
  moreover have "length (current_value r1 # vs) = length (env # envs)" using ih(2) by simp
  ultimately show ?case using ih(4) by blast
qed

text \<open>
  Decimal rendering never starts with a sign, so \<open>zfill\<close> pads a non-negative number
  on the left only; the default format spelled out; the formatted branch of \<open>render\<close>
  as one concatenation.
\<close>

lemma digit_char_not_sign:
  assumes "d < 10"
  shows "digit_char d \<noteq> CHR ''-'' \<and> digit_char d \<noteq> CHR ''+''"
proof -
  have "d \<in> {0, 1, 2, 3, 4, 5, 6, 7, 8, 9}" using assms by auto
  then show ?thesis by (auto simp: digit_char_def)
qed

lemma str_nat_nonempty: "str_nat n \<noteq> []"
  by (subst str_nat.simps) simp

lemma hd_str_nat: "hd (str_nat n) \<noteq> CHR ''-'' \<and> hd (str_nat n) \<noteq> CHR ''+''"
proof (induction n rule: str_nat.induct)
  case (1 n)
  show ?case
  proof (cases "n < 10")
    case True
    then show ?thesis using digit_char_not_sign[of n] by (subst (1 2) str_nat.simps) simp
  next
    case False
    then show ?thesis using 1 str_nat_nonempty[of "n div 10"]
      by (subst (1 2) str_nat.simps) simp
  qed
qed

lemma zfill_str_nat:
  "zfill w (str_nat n) = replicate (w - length (str_nat n)) CHR ''0'' @ str_nat n"
proof (cases "str_nat n")
  case Nil
  then show ?thesis using str_nat_nonempty by simp
next
  case (Cons c cs)
  then have "c \<noteq> CHR ''-'' \<and> c \<noteq> CHR ''+''" using hd_str_nat[of n] by simp
  then show ?thesis using Cons by (simp add: zfill_def)
qed

lemma length_zfill: "w \<le> length (zfill w s)"
  by (cases s) (auto simp: zfill_def)

lemma foldl_zeros: "foldl (\<lambda>a d. 10 * a + d) (0::nat) (replicate k 0) = 0"
  by (induction k) simp_all

lemma str_nat_digits:
  "\<exists>ds. str_nat n = map ((!) ''0123456789'') ds \<and> (\<forall>d\<in>set ds. d < 10)
        \<and> foldl (\<lambda>a d. 10 * a + d) 0 ds = n \<and> ds \<noteq> [] \<and> (hd ds \<noteq> 0 \<or> ds = [0])"
proof (induction n rule: str_nat.induct)
  case (1 n)
  show ?case
  proof (cases "n < 10")
    case True
    have "str_nat n = [digit_char n]" using True by (subst str_nat.simps) simp
    then show ?thesis using True by (intro exI[of _ "[n]"]) (auto simp: digit_char_def)
  next
    case False
    obtain ds where ds: "str_nat (n div 10) = map ((!) ''0123456789'') ds" "\<forall>d\<in>set ds. d < 10"
        "foldl (\<lambda>a d. 10 * a + d) 0 ds = n div 10" "ds \<noteq> []" "hd ds \<noteq> 0 \<or> ds = [0]"
      using 1 False by blast
    have s: "str_nat n = str_nat (n div 10) @ [digit_char (n mod 10)]"
      using False by (subst str_nat.simps) simp
    have h: "hd ds \<noteq> 0" using ds(3,5) False by auto
    show ?thesis
      using s ds h by (intro exI[of _ "ds @ [n mod 10]"]) (auto simp: digit_char_def)
  qed
qed

lemma zfill_digits:
  assumes "1 \<le> w"
  shows "\<exists>ds. zfill w (str_nat n) = map ((!) ''0123456789'') ds \<and> (\<forall>d\<in>set ds. d < 10)
        \<and> foldl (\<lambda>a d. 10 * a + d) 0 ds = n \<and> w \<le> length ds \<and> (w < length ds \<longrightarrow> hd ds \<noteq> 0)"
proof -
  obtain ds where ds: "str_nat n = map ((!) ''0123456789'') ds" "\<forall>d\<in>set ds. d < 10"
      "foldl (\<lambda>a d. 10 * a + d) 0 ds = n" "ds \<noteq> []" "hd ds \<noteq> 0 \<or> ds = [0]"
    using str_nat_digits by blast
  have l: "length (str_nat n) = length ds" using ds(1) by simp
  have z: "zfill w (str_nat n) = map ((!) ''0123456789'') (replicate (w - length ds) 0 @ ds)"
    using zfill_str_nat[of w n] ds(1) by simp
  have f: "foldl (\<lambda>a d. 10 * a + d) 0 (replicate (w - length ds) 0 @ ds) = n"
    using ds(3) by (simp add: foldl_zeros)
  have h: "w < length (replicate (w - length ds) 0 @ ds) \<longrightarrow> hd (replicate (w - length ds) 0 @ ds) \<noteq> 0"
    using ds(5) assms by auto
  show ?thesis
    using z f h ds(2) by (intro exI[of _ "replicate (w - length ds) 0 @ ds"]) auto
qed

lemma zfill_py_str_negative:
  "v < 0 \<Longrightarrow> zfill 6 (py_str v) = CHR ''-'' # zfill 5 (str_nat (nat (- v)))"
  by (subst zfill_str_nat) (auto simp: py_str_def zfill_def Suc_diff_le)

text \<open>
  The formats rendered here, conversion by conversion, and the default format spelled out.
\<close>

lemma two_digits_explicit:
  assumes "n < 100"
  shows "two_digits n = [''0123456789'' ! (n div 10), ''0123456789'' ! (n mod 10)]"
proof (cases "n < 10")
  case True
  have "str_nat n = [digit_char n]" using True by (subst str_nat.simps) simp
  then show ?thesis
    unfolding two_digits_def zfill_str_nat using True by (simp add: digit_char_def)
next
  case False
  have d: "n div 10 < 10" using assms by simp
  have "str_nat (n div 10) = [digit_char (n div 10)]" using d by (subst str_nat.simps) simp
  then have "str_nat n = [digit_char (n div 10), digit_char (n mod 10)]"
    using False by (subst str_nat.simps) simp
  then show ?thesis
    unfolding two_digits_def zfill_str_nat by (simp add: digit_char_def)
qed

lemma strftime_plain:
  assumes "valid_time t" and "plain_char c" and "simple_format f"
  shows "strftime p t (c # f) = c # strftime p t f"
  using assms by (cases f) (auto simp: strftime_def plain_char_def)

lemma strftime_directive:
  assumes "valid_time t" and "simple_format f" and "d \<in> set ''ymdHMS''"
  shows "strftime p t (CHR ''%'' # d # f) = directive t d @ strftime p t f"
  using assms by (simp add: strftime_def)

lemma strftime_default:
  assumes "valid_time t"
  shows "strftime p t default_datetime_format =
     map ((!) ''0123456789'')
       [lt_year t mod 100 div 10, lt_year t mod 10, lt_month t div 10, lt_month t mod 10,
        lt_day t div 10, lt_day t mod 10, lt_hour t div 10, lt_hour t mod 10,
        lt_minute t div 10, lt_minute t mod 10]"
proof -
  have "lt_year t mod 100 < 100" "lt_month t < 100" "lt_day t < 100" "lt_hour t < 100"
      "lt_minute t < 100"
    using assms by (simp_all add: valid_time_def)
  then show ?thesis
    using assms
    by (simp add: strftime_def default_datetime_format_def directive_def two_digits_explicit
        mod_mod_cancel)
qed

lemma render_formatted:
  assumes "wp \<or> wd"
  shows "render wp wd fmt pfx env v =
     StrId ((if wp then (case pfx of None \<Rightarrow> [] | Some p \<Rightarrow> p) else [])
            @ (if wd then strftime (platform env) (clock env) fmt else [])
            @ zfill 6 (py_str v))"
  using assms by (auto simp: render_def truthy_def Let_def split: option.splits)

lemma generate_sequence_id_session:
  "snd (generate_sequence_id db k wp wd fmt env) = snd (generate_sequence_id db k wp' wd' fmt' env)"
  by (simp add: generate_sequence_id_def Let_def split: prod.splits option.splits sum.splits)

text \<open>
  \<open>init_sequence\<close> on a key that has a row, and on a key that has none.
\<close>

lemma init_sequence_present:
  assumes "pending db (key_of k) = Some r"
  shows "init_sequence seed db k cv smin smax pfx desc rows now = (Inr (), db)"
  using assms by (simp add: init_sequence_def select_one_def)

lemma init_sequence_absent:
  assumes "pending db (key_of k) = None"
  shows "init_sequence seed db k cv smin smax pfx desc rows now =
    (if key_of k \<in> dom rows
     then (Inl (IntegrityError (key_of k)), others_commit rows db)
     else (Inr (),
           \<lparr>committed = (pending db ++ rows)(key_of k \<mapsto>
               row_of_config (effective_config seed (key_of k) (cv, smin, smax, pfx, desc)) now),
            pending = (pending db ++ rows)(key_of k \<mapsto>
               row_of_config (effective_config seed (key_of k) (cv, smin, smax, pfx, desc)) now),
            locks = {}, tx_log = tx_log db @ [COMMIT]\<rparr>))"
  using assms
  by (auto simp: init_sequence_def select_one_def insert_row_def others_commit_def commit_def
      Let_def map_add_dom_app_simps)

lemma SEQ_INIT_CONFIG_entries:
  "SEQ_INIT_CONFIG seed ''user_id''
     = Some (1000000 + int (seed mod 1001), 1, 20, None, Some user_id_description)"
  "SEQ_INIT_CONFIG seed ''order_no'' = Some (1, 1, 1, Some ''ORD'', Some order_no_description)"
  "key \<noteq> ''user_id'' \<Longrightarrow> key \<noteq> ''order_no'' \<Longrightarrow> SEQ_INIT_CONFIG seed key = None"
  by (simp_all add: SEQ_INIT_CONFIG_def randbelow_def)

text \<open>
  The sample session evaluated.
\<close>

lemma sample_db_user: "pending sample_db (key_of (Member USER_ID)) = Some user_row"
  by (simp add: sample_db_def sample_table_def)

lemma sample_db_order: "pending sample_db (key_of (Member ORDER_NO)) = Some order_row"
  by (simp add: sample_db_def sample_table_def)

lemma sample_step_user: "choose_step (step_min user_row) (step_max user_row) (rand (sample_env 4)) = Inr 5"
  by (simp add: choose_step_def randint_def randbelow_def user_row_def sample_env_def)

lemma sample_step_order: "choose_step (step_min order_row) (step_max order_row) (rand (sample_env x)) = Inr 1"
  by (simp add: choose_step_def order_row_def)

subsection \<open>The allocator\<close>

text \<open>
  C1. On a key whose row has \<open>1 \<le> step_min \<le> step_max\<close> every call succeeds: it
  stores and returns \<open>current_value + step\<close> with \<open>step \<ge> 1\<close> (the bare integer when no
  formatting option is set). Calls made one after the other on the key therefore return a
  strictly increasing list of values, all above the starting value and pairwise distinct,
  and the row ends at the last value returned.
\<close>

theorem generate_sequence_id_strictly_increasing:
  assumes "pending db (key_of k) = Some r" and "1 \<le> step_min r" and "step_min r \<le> step_max r"
  shows "(\<exists>step db'. 1 \<le> step
            \<and> generate_sequence_id db k wp wd fmt env
                = (Inr (render wp wd fmt (prefix r) env (current_value r + step)), db')
            \<and> render False False fmt (prefix r) env (current_value r + step)
                = IntId (current_value r + step)
            \<and> pending db' (key_of k)
                = Some (r\<lparr>current_value := current_value r + step, update_time := db_now env\<rparr>)
            \<and> current_value r < current_value r + step)
       \<and> (\<exists>vs db' r'. allocations db k envs = (map (\<lambda>v. Inr (IntId v)) vs, db')
            \<and> length vs = length envs
            \<and> sorted_wrt (<) (current_value r # vs)
            \<and> distinct vs
            \<and> pending db' (key_of k) = Some r'
            \<and> current_value r' = last (current_value r # vs))"
proof
  obtain step where st: "choose_step (step_min r) (step_max r) (rand env) = Inr step"
    using choose_step_defined[OF assms(3)] by blast
  have "1 \<le> step" using choose_step_range[OF st] assms(2) by simp
  then show "\<exists>step db'. 1 \<le> step
            \<and> generate_sequence_id db k wp wd fmt env
                = (Inr (render wp wd fmt (prefix r) env (current_value r + step)), db')
            \<and> render False False fmt (prefix r) env (current_value r + step)
                = IntId (current_value r + step)
            \<and> pending db' (key_of k)
                = Some (r\<lparr>current_value := current_value r + step, update_time := db_now env\<rparr>)
            \<and> current_value r < current_value r + step"
    using generate_sequence_id_found[OF assms(1), of wp wd fmt env] st
    by (intro exI[of _ step]) (simp add: render_def)
next
  obtain vs db' r' where a: "allocations db k envs = (map (\<lambda>v. Inr (IntId v)) vs, db')"
      "length vs = length envs" "sorted_wrt (<) (current_value r # vs)"
      "pending db' (key_of k) = Some r'" "current_value r' = last (current_value r # vs)"
    using allocations_increasing[OF assms] by blast
  have "sorted_wrt (<) vs" using a(3) by simp
  then have "distinct vs" by (simp add: strict_sorted_iff)
  then show "\<exists>vs db' r'. allocations db k envs = (map (\<lambda>v. Inr (IntId v)) vs, db')
            \<and> length vs = length envs
            \<and> sorted_wrt (<) (current_value r # vs)
            \<and> distinct vs
            \<and> pending db' (key_of k) = Some r'
            \<and> current_value r' = last (current_value r # vs)"
    using a by blast
qed

theorem generate_sequence_id_strictly_increasing_witness:
  "pending sample_db (key_of (Member USER_ID)) = Some user_row
   \<and> 1 \<le> step_min user_row \<and> step_min user_row \<le> step_max user_row
   \<and> (\<exists>vs db' r'. allocations sample_db (Member USER_ID) [sample_env 4, sample_env 25]
          = (map (\<lambda>v. Inr (IntId v)) vs, db')
        \<and> length vs = length [sample_env 4, sample_env 25]
        \<and> sorted_wrt (<) (current_value user_row # vs)
        \<and> distinct vs
        \<and> pending db' (key_of (Member USER_ID)) = Some r'
        \<and> current_value r' = last (current_value user_row # vs))"
proof -
  have h2: "1 \<le> step_min user_row" and h3: "step_min user_row \<le> step_max user_row"
    by (simp_all add: user_row_def)
  note t = generate_sequence_id_strictly_increasing[OF sample_db_user h2 h3, where envs = "[sample_env 4, sample_env 25]"
      and wp = False and wd = False and fmt = "[]" and env = "sample_env 4"]
  show ?thesis using t sample_db_user h2 h3 by blast
qed

text \<open>
  C3. For a key without a row the call fails with the "not found" ValueError and hands
  the session back exactly as it was: no row, lock or log entry changes.
\<close>

theorem generate_sequence_id_unknown_key:
  assumes "pending db (key_of k) = None"
  shows "generate_sequence_id db k wp wd fmt env = (Inl (not_found (key_of k)), db)"
  using assms by (rule generate_sequence_id_missing)

theorem generate_sequence_id_unknown_key_witness:
  "generate_sequence_id empty_db (Str ''missing'') True True default_datetime_format (sample_env 0)
     = (Inl (not_found ''missing''), empty_db)"
  using generate_sequence_id_unknown_key[of empty_db "Str ''missing''" True True default_datetime_format "sample_env 0"]
  by (simp add: empty_db_def)

text \<open>
  C4. In a successful call the step is \<open>step_min\<close> when the two bounds are equal and
  otherwise \<open>step_min\<close> plus what the generator yields below the width of the range; for
  every output of the generator it lies within \<open>[step_min, step_max]\<close>, and the outputs
  below the width correspond one to one to the values of the range, so a uniform generator
  gives a uniform step.
\<close>

theorem generate_sequence_id_step_in_range:
  assumes "pending db (key_of k) = Some r"
    and "generate_sequence_id db k wp wd fmt env = (Inr v, db')"
  shows "\<exists>step. choose_step (step_min r) (step_max r) (rand env) = Inr step
           \<and> pending db' (key_of k)
               = Some (r\<lparr>current_value := current_value r + step, update_time := db_now env\<rparr>)
           \<and> (step_min r = step_max r \<longrightarrow> step = step_min r)
           \<and> (step_min r \<noteq> step_max r \<longrightarrow>
                 step = step_min r + int (rand env mod nat (step_max r + 1 - step_min r)))
           \<and> step_min r \<le> step \<and> step \<le> step_max r
           \<and> bij_betw (\<lambda>x. step_min r + int x)
                 {..< nat (step_max r + 1 - step_min r)} {step_min r .. step_max r}"
proof -
  obtain step where st: "choose_step (step_min r) (step_max r) (rand env) = Inr step"
    using generate_sequence_id_found[OF assms(1), of wp wd fmt env] assms(2)
    by (cases "choose_step (step_min r) (step_max r) (rand env)") auto
  have p: "pending db' (key_of k)
      = Some (r\<lparr>current_value := current_value r + step, update_time := db_now env\<rparr>)"
    using generate_sequence_id_found[OF assms(1), of wp wd fmt env] assms(2) st by auto
  have rng: "step_min r \<le> step \<and> step \<le> step_max r" using choose_step_range[OF st] .
  have eq: "step_min r = step_max r \<longrightarrow> step = step_min r"
    using st by (auto simp: choose_step_def split: if_splits)
  have ne: "step_min r \<noteq> step_max r \<longrightarrow>
      step = step_min r + int (rand env mod nat (step_max r + 1 - step_min r))"
    using st by (auto simp: choose_step_def randint_def randbelow_def Let_def split: if_splits)
  have bij: "bij_betw (\<lambda>x. step_min r + int x)
      {..< nat (step_max r + 1 - step_min r)} {step_min r .. step_max r}"
    by (rule bij_betw_byWitness[where f' = "\<lambda>y. nat (y - step_min r)"]) auto
  show ?thesis using st p rng eq ne bij by blast
qed

theorem generate_sequence_id_step_in_range_witness:
  "\<exists>v db'. generate_sequence_id sample_db (Member USER_ID) False False [] (sample_env 4) = (Inr v, db')
     \<and> pending db' (key_of (Member USER_ID))
         = Some (user_row\<lparr>current_value := current_value user_row + 5, update_time := db_now (sample_env 4)\<rparr>)
     \<and> step_min user_row \<le> 5 \<and> 5 \<le> step_max user_row"
proof -
  obtain v db' where g:
    "generate_sequence_id sample_db (Member USER_ID) False False [] (sample_env 4) = (Inr v, db')"
    using generate_sequence_id_found[OF sample_db_user, of False False "[]" "sample_env 4"]
      sample_step_user by simp
  from generate_sequence_id_step_in_range[OF sample_db_user g] sample_step_user show ?thesis using g by auto
qed

text \<open>
  C5. With at least one formatting option the call returns the string made of the prefix
  (when \<open>with_prefix\<close> is set and the row has one), the local time rendered by
  \<open>datetime_format\<close> (when \<open>with_datetime\<close> is set) and the new value filled with
  zeros to at least six characters. The number part is spelled out digit by digit: for a
  non-negative value it is the decimal digits of the value, at least six of them, with a
  leading zero only to reach six; a negative value keeps its sign first and has at least
  five digits. The rendering of the time follows the format: the default format is
  \<open>%y%m%d%H%M\<close> and gives the two-digit year, month, day, hour and minute; a printable
  character is copied, each of \<open>%y %m %d %H %M %S\<close> gives its two digits, and any other
  format is rendered as the platform's library does. The session afterwards is the one a
  call without formatting leaves: the stored value is the number.
\<close>

theorem generate_sequence_id_formatted:
  assumes "pending db (key_of k) = Some r"
    and "choose_step (step_min r) (step_max r) (rand env) = Inr step"
    and "wp \<or> wd"
  shows "fst (generate_sequence_id db k wp wd fmt env)
           = Inr (StrId ((if wp then (case prefix r of None \<Rightarrow> [] | Some p \<Rightarrow> p) else [])
                         @ (if wd then strftime (platform env) (clock env) fmt else [])
                         @ zfill 6 (py_str (current_value r + step))))
       \<and> 6 \<le> length (zfill 6 (py_str (current_value r + step)))
       \<and> (0 \<le> current_value r + step \<longrightarrow>
            (\<exists>ds. zfill 6 (py_str (current_value r + step)) = map ((!) ''0123456789'') ds
                \<and> (\<forall>d\<in>set ds. d < 10)
                \<and> foldl (\<lambda>a d. 10 * a + d) 0 ds = nat (current_value r + step)
                \<and> 6 \<le> length ds \<and> (6 < length ds \<longrightarrow> hd ds \<noteq> 0)))
       \<and> (current_value r + step < 0 \<longrightarrow>
            (\<exists>ds. zfill 6 (py_str (current_value r + step))
                    = CHR ''-'' # map ((!) ''0123456789'') ds
                \<and> (\<forall>d\<in>set ds. d < 10)
                \<and> foldl (\<lambda>a d. 10 * a + d) 0 ds = nat (- (current_value r + step))
                \<and> 5 \<le> length ds \<and> (5 < length ds \<longrightarrow> hd ds \<noteq> 0)))
       \<and> default_datetime_format = ''%y%m%d%H%M''
       \<and> (valid_time (clock env) \<longrightarrow>
            strftime (platform env) (clock env) default_datetime_format
              = map ((!) ''0123456789'')
                  [lt_year (clock env) mod 100 div 10, lt_year (clock env) mod 10,
                   lt_month (clock env) div 10, lt_month (clock env) mod 10,
                   lt_day (clock env) div 10, lt_day (clock env) mod 10,
                   lt_hour (clock env) div 10, lt_hour (clock env) mod 10,
                   lt_minute (clock env) div 10, lt_minute (clock env) mod 10]
          \<and> strftime (platform env) (clock env) [] = []
          \<and> (\<forall>c f. plain_char c \<and> simple_format f \<longrightarrow>
                strftime (platform env) (clock env) (c # f)
                  = c # strftime (platform env) (clock env) f)
          \<and> (\<forall>f. simple_format f \<longrightarrow>
                strftime (platform env) (clock env) (''%y'' @ f)
                  = map ((!) ''0123456789'')
                      [lt_year (clock env) mod 100 div 10, lt_year (clock env) mod 10]
                    @ strftime (platform env) (clock env) f
              \<and> strftime (platform env) (clock env) (''%m'' @ f)
                  = map ((!) ''0123456789'')
                      [lt_month (clock env) div 10, lt_month (clock env) mod 10]
                    @ strftime (platform env) (clock env) f
              \<and> strftime (platform env) (clock env) (''%d'' @ f)
                  = map ((!) ''0123456789'')
                      [lt_day (clock env) div 10, lt_day (clock env) mod 10]
                    @ strftime (platform env) (clock env) f
              \<and> strftime (platform env) (clock env) (''%H'' @ f)
                  = map ((!) ''0123456789'')
                      [lt_hour (clock env) div 10, lt_hour (clock env) mod 10]
                    @ strftime (platform env) (clock env) f
              \<and> strftime (platform env) (clock env) (''%M'' @ f)
                  = map ((!) ''0123456789'')
                      [lt_minute (clock env) div 10, lt_minute (clock env) mod 10]
                    @ strftime (platform env) (clock env) f
              \<and> strftime (platform env) (clock env) (''%S'' @ f)
                  = map ((!) ''0123456789'')
                      [lt_second (clock env) div 10, lt_second (clock env) mod 10]
                    @ strftime (platform env) (clock env) f))
       \<and> (\<not> (valid_time (clock env) \<and> simple_format fmt) \<longrightarrow>
            strftime (platform env) (clock env) fmt = platform env (clock env) fmt)
       \<and> snd (generate_sequence_id db k wp wd fmt env)
           = snd (generate_sequence_id db k False False fmt env)
       \<and> pending (snd (generate_sequence_id db k wp wd fmt env)) (key_of k)
           = Some (r\<lparr>current_value := current_value r + step, update_time := db_now env\<rparr>)"
proof -
  have g: "generate_sequence_id db k wp wd fmt env =
      (Inr (render wp wd fmt (prefix r) env (current_value r + step)),
       db\<lparr>locks := insert (key_of k) (locks db),
          pending := (pending db)(key_of k \<mapsto>
            r\<lparr>current_value := current_value r + step, update_time := db_now env\<rparr>)\<rparr>)"
    using generate_sequence_id_found[OF assms(1), of wp wd fmt env] assms(2) by simp
  have a: "fst (generate_sequence_id db k wp wd fmt env)
           = Inr (StrId ((if wp then (case prefix r of None \<Rightarrow> [] | Some p \<Rightarrow> p) else [])
                         @ (if wd then strftime (platform env) (clock env) fmt else [])
                         @ zfill 6 (py_str (current_value r + step))))"
    using g render_formatted[OF assms(3)] by simp
  have b: "6 \<le> length (zfill 6 (py_str (current_value r + step)))" by (rule length_zfill)
  have c: "0 \<le> current_value r + step \<longrightarrow>
            (\<exists>ds. zfill 6 (py_str (current_value r + step)) = map ((!) ''0123456789'') ds
                \<and> (\<forall>d\<in>set ds. d < 10)
                \<and> foldl (\<lambda>a d. 10 * a + d) 0 ds = nat (current_value r + step)
                \<and> 6 \<le> length ds \<and> (6 < length ds \<longrightarrow> hd ds \<noteq> 0))"
    using zfill_digits[of 6 "nat (current_value r + step)"] by (simp add: py_str_def)
  have d: "current_value r + step < 0 \<longrightarrow>
            (\<exists>ds. zfill 6 (py_str (current_value r + step))
                    = CHR ''-'' # map ((!) ''0123456789'') ds
                \<and> (\<forall>d\<in>set ds. d < 10)
                \<and> foldl (\<lambda>a d. 10 * a + d) 0 ds = nat (- (current_value r + step))
                \<and> 5 \<le> length ds \<and> (5 < length ds \<longrightarrow> hd ds \<noteq> 0))"
    using zfill_digits[of 5 "nat (- (current_value r + step))"]
    by (simp add: zfill_py_str_negative)
  have e: "default_datetime_format = ''%y%m%d%H%M''" by (simp add: default_datetime_format_def)
  have f: "valid_time (clock env) \<longrightarrow>
            strftime (platform env) (clock env) default_datetime_format
              = map ((!) ''0123456789'')
                  [lt_year (clock env) mod 100 div 10, lt_year (clock env) mod 10,
                   lt_month (clock env) div 10, lt_month (clock env) mod 10,
                   lt_day (clock env) div 10, lt_day (clock env) mod 10,
                   lt_hour (clock env) div 10, lt_hour (clock env) mod 10,
                   lt_minute (clock env) div 10, lt_minute (clock env) mod 10]"
    using strftime_default by blast
  have n: "valid_time (clock env) \<longrightarrow> strftime (platform env) (clock env) [] = []"
    by (simp add: strftime_def)
  have p: "valid_time (clock env) \<longrightarrow>
      (\<forall>c f. plain_char c \<and> simple_format f \<longrightarrow>
                strftime (platform env) (clock env) (c # f)
                  = c # strftime (platform env) (clock env) f)"
    using strftime_plain by blast
  have q: "valid_time (clock env) \<longrightarrow>
      (\<forall>f. simple_format f \<longrightarrow>
                strftime (platform env) (clock env) (''%y'' @ f)
                  = map ((!) ''0123456789'')
                      [lt_year (clock env) mod 100 div 10, lt_year (clock env) mod 10]
                    @ strftime (platform env) (clock env) f
              \<and> strftime (platform env) (clock env) (''%m'' @ f)
                  = map ((!) ''0123456789'')
                      [lt_month (clock env) div 10, lt_month (clock env) mod 10]
                    @ strftime (platform env) (clock env) f
              \<and> strftime (platform env) (clock env) (''%d'' @ f)
                  = map ((!) ''0123456789'')
                      [lt_day (clock env) div 10, lt_day (clock env) mod 10]
                    @ strftime (platform env) (clock env) f
              \<and> strftime (platform env) (clock env) (''%H'' @ f)
                  = map ((!) ''0123456789'')
                      [lt_hour (clock env) div 10, lt_hour (clock env) mod 10]
                    @ strftime (platform env) (clock env) f
              \<and> strftime (platform env) (clock env) (''%M'' @ f)
                  = map ((!) ''0123456789'')
                      [lt_minute (clock env) div 10, lt_minute (clock env) mod 10]
                    @ strftime (platform env) (clock env) f
              \<and> strftime (platform env) (clock env) (''%S'' @ f)
                  = map ((!) ''0123456789'')
                      [lt_second (clock env) div 10, lt_second (clock env) mod 10]
                    @ strftime (platform env) (clock env) f)"
  proof (intro impI allI)
    fix f
    assume v: "valid_time (clock env)" and s: "simple_format f"
    have lt: "lt_year (clock env) mod 100 < 100" "lt_month (clock env) < 100"
        "lt_day (clock env) < 100" "lt_hour (clock env) < 100" "lt_minute (clock env) < 100"
        "lt_second (clock env) < 100"
      using v by (simp_all add: valid_time_def)
    show "strftime (platform env) (clock env) (''%y'' @ f)
                  = map ((!) ''0123456789'')
                      [lt_year (clock env) mod 100 div 10, lt_year (clock env) mod 10]
                    @ strftime (platform env) (clock env) f
              \<and> strftime (platform env) (clock env) (''%m'' @ f)
                  = map ((!) ''0123456789'')
                      [lt_month (clock env) div 10, lt_month (clock env) mod 10]
                    @ strftime (platform env) (clock env) f
              \<and> strftime (platform env) (clock env) (''%d'' @ f)
                  = map ((!) ''0123456789'')
                      [lt_day (clock env) div 10, lt_day (clock env) mod 10]
                    @ strftime (platform env) (clock env) f
              \<and> strftime (platform env) (clock env) (''%H'' @ f)
                  = map ((!) ''0123456789'')
                      [lt_hour (clock env) div 10, lt_hour (clock env) mod 10]
                    @ strftime (platform env) (clock env) f
              \<and> strftime (platform env) (clock env) (''%M'' @ f)
                  = map ((!) ''0123456789'')
                      [lt_minute (clock env) div 10, lt_minute (clock env) mod 10]
                    @ strftime (platform env) (clock env) f
              \<and> strftime (platform env) (clock env) (''%S'' @ f)
                  = map ((!) ''0123456789'')
                      [lt_second (clock env) div 10, lt_second (clock env) mod 10]
                    @ strftime (platform env) (clock env) f"
      using lt strftime_directive[OF v s, of _ "platform env"]
      by (simp add: directive_def two_digits_explicit mod_mod_cancel)
  qed
  have o: "\<not> (valid_time (clock env) \<and> simple_format fmt) \<longrightarrow>
            strftime (platform env) (clock env) fmt = platform env (clock env) fmt"
    by (simp add: strftime_def)
  have u: "pending (snd (generate_sequence_id db k wp wd fmt env)) (key_of k)
           = Some (r\<lparr>current_value := current_value r + step, update_time := db_now env\<rparr>)"
    using g by simp
  have w: "snd (generate_sequence_id db k wp wd fmt env)
           = snd (generate_sequence_id db k False False fmt env)"
    by (rule generate_sequence_id_session)
  show ?thesis using a b c d e f n p q o u w by blast
qed

theorem generate_sequence_id_formatted_witness:
  "fst (generate_sequence_id sample_db (Member ORDER_NO) True True default_datetime_format
          (sample_env 0)) = Inr (StrId ''ORD2312231530000001'')"
proof -
  have z: "zfill 6 (py_str 1) = ''000001''" by code_simp
  have c: "strftime (\<lambda>t fmt. []) sample_clock default_datetime_format = ''2312231530''"
    by code_simp
  have "True \<or> True" by simp
  from generate_sequence_id_formatted[OF sample_db_order sample_step_order this, of default_datetime_format]
  show ?thesis using z c by (simp add: order_row_def sample_env_def)
qed

text \<open>
  C6. With neither option set the call returns the bare integer \<open>current_value + step\<close>;
  no padding is applied, whatever the size of the value.
\<close>

theorem generate_sequence_id_raw:
  assumes "pending db (key_of k) = Some r"
    and "choose_step (step_min r) (step_max r) (rand env) = Inr step"
  shows "fst (generate_sequence_id db k False False fmt env) = Inr (IntId (current_value r + step))"
  using generate_sequence_id_found[OF assms(1), of False False fmt env] assms(2)
  by (simp add: render_def)

theorem generate_sequence_id_raw_witness:
  "fst (generate_sequence_id sample_db (Member USER_ID) False False default_datetime_format
          (sample_env 4)) = Inr (IntId 1000005)"
  using generate_sequence_id_raw[OF sample_db_user sample_step_user, of default_datetime_format]
  by (simp add: user_row_def)

subsection \<open>The initializer\<close>

text \<open>
  C7. On a key that has a row \<open>init_sequence\<close> returns the session unchanged, whatever
  the caller passes; in particular a second call after a successful first one, with any
  other arguments, changes nothing.
\<close>

theorem init_sequence_existing_noop:
  "(pending db (key_of k) = Some r \<longrightarrow>
      init_sequence seed db k cv smin smax pfx desc rows now = (Inr (), db))
   \<and> (init_sequence seed db k cv smin smax pfx desc rows now = (Inr (), db1) \<longrightarrow>
      init_sequence seed db1 k cv2 smin2 smax2 pfx2 desc2 rows2 now2 = (Inr (), db1))"
proof (intro conjI impI)
  assume "pending db (key_of k) = Some r"
  then show "init_sequence seed db k cv smin smax pfx desc rows now = (Inr (), db)"
    by (rule init_sequence_present)
next
  assume a: "init_sequence seed db k cv smin smax pfx desc rows now = (Inr (), db1)"
  have "\<exists>r1. pending db1 (key_of k) = Some r1"
  proof (cases "pending db (key_of k)")
    case None
    then show ?thesis using a init_sequence_absent[OF None, of seed cv smin smax pfx desc rows now]
      by (auto split: if_splits)
  next
    case (Some r0)
    then show ?thesis using a init_sequence_present[OF Some, of seed cv smin smax pfx desc rows now]
      by auto
  qed
  then show "init_sequence seed db1 k cv2 smin2 smax2 pfx2 desc2 rows2 now2 = (Inr (), db1)"
    using init_sequence_present by blast
qed

theorem init_sequence_existing_noop_witness:
  "init_sequence 0 sample_db (Member ORDER_NO) 99 5 9 (Some ''X'') None Map.empty 8
     = (Inr (), sample_db)"
  using init_sequence_existing_noop[of sample_db "Member ORDER_NO" order_row 0 99 5 9 "Some ''X''" None Map.empty 8]
    sample_db_order by simp

text \<open>
  C8. When \<open>init_sequence\<close> creates the row, the row is spelled out column by column.
  For \<open>user_id\<close> it has the value 1000000 plus the generator's draw below 1001, steps
  from 1 to 20, no prefix and the description of the table; for \<open>order_no\<close> it has
  value 1, step 1 to 1, prefix ORD and the description of the table; in both cases
  whatever the caller passed, and also when the key comes as a plain string. For any other
  key the five columns are the caller's values. Both timestamps are the time of the INSERT,
  and the row is committed as it was inserted.
\<close>

theorem init_sequence_known_config:
  assumes "pending db (key_of k) = None"
    and "init_sequence seed db k cv smin smax pfx desc rows now = (Inr (), db')"
  shows "(key_of k = ''user_id'' \<longrightarrow>
            pending db' (key_of k)
              = Some \<lparr>current_value = 1000000 + int (seed mod 1001), step_min = 1, step_max = 20,
                      prefix = None,
                      description = Some [CHR 0xE7, CHR 0x94, CHR 0xA8, CHR 0xE6, CHR 0x88,
                                          CHR 0xB7, CHR 0x49, CHR 0x44],
                      create_time = now, update_time = now\<rparr>)
       \<and> (key_of k = ''order_no'' \<longrightarrow>
            pending db' (key_of k)
              = Some \<lparr>current_value = 1, step_min = 1, step_max = 1, prefix = Some ''ORD'',
                      description = Some [CHR 0xE5, CHR 0x85, CHR 0x85, CHR 0xE5, CHR 0x80,
                                          CHR 0xBC, CHR 0xE8, CHR 0xAE, CHR 0xA2, CHR 0xE5,
                                          CHR 0x8D, CHR 0x95, CHR 0xE5, CHR 0x8F, CHR 0xB7],
                      create_time = now, update_time = now\<rparr>)
       \<and> (key_of k \<noteq> ''user_id'' \<and> key_of k \<noteq> ''order_no'' \<longrightarrow>
            pending db' (key_of k)
              = Some \<lparr>current_value = cv, step_min = smin, step_max = smax, prefix = pfx,
                      description = desc, create_time = now, update_time = now\<rparr>)
       \<and> (\<forall>cv' smin' smax' pfx' desc'.
            SEQ_INIT_CONFIG seed (key_of k) = Some (cv', smin', smax', pfx', desc') \<longrightarrow>
            pending db' (key_of k)
              = Some \<lparr>current_value = cv', step_min = smin', step_max = smax', prefix = pfx',
                      description = desc', create_time = now, update_time = now\<rparr>)
       \<and> (SEQ_INIT_CONFIG seed (key_of k) = None \<longrightarrow>
            pending db' (key_of k)
              = Some \<lparr>current_value = cv, step_min = smin, step_max = smax, prefix = pfx,
                      description = desc, create_time = now, update_time = now\<rparr>)
       \<and> SEQ_INIT_CONFIG seed ''user_id''
            = Some (1000000 + int (seed mod 1001), 1, 20, None, Some user_id_description)
       \<and> SEQ_INIT_CONFIG seed ''order_no''
            = Some (1, 1, 1, Some ''ORD'', Some order_no_description)
       \<and> (key_of k \<noteq> ''user_id'' \<and> key_of k \<noteq> ''order_no'' \<longrightarrow>
            SEQ_INIT_CONFIG seed (key_of k) = None)
       \<and> committed db' (key_of k) = pending db' (key_of k)"
proof -
  have p: "pending db' (key_of k)
      = Some (row_of_config (effective_config seed (key_of k) (cv, smin, smax, pfx, desc)) now)"
    and c: "committed db' (key_of k) = pending db' (key_of k)"
    using init_sequence_absent[OF assms(1), of seed cv smin smax pfx desc rows now] assms(2)
    by (auto split: if_splits)
  show ?thesis using p c SEQ_INIT_CONFIG_entries
    by (auto simp: effective_config_def user_id_description_def order_no_description_def)
qed

theorem init_sequence_known_config_witness:
  "\<exists>db'. init_sequence 0 empty_db (Member ORDER_NO) 99 5 9 (Some ''X'') None Map.empty 8
            = (Inr (), db')
     \<and> pending db' ''order_no''
         = Some \<lparr>current_value = 1, step_min = 1, step_max = 1, prefix = Some ''ORD'',
                 description = Some [CHR 0xE5, CHR 0x85, CHR 0x85, CHR 0xE5, CHR 0x80,
                                     CHR 0xBC, CHR 0xE8, CHR 0xAE, CHR 0xA2, CHR 0xE5,
                                     CHR 0x8D, CHR 0x95, CHR 0xE5, CHR 0x8F, CHR 0xB7],
                 create_time = 8, update_time = 8\<rparr>"
proof -
  have h1: "pending empty_db (key_of (Member ORDER_NO)) = None" by (simp add: empty_db_def)
  obtain db' where g:
    "init_sequence 0 empty_db (Member ORDER_NO) 99 5 9 (Some ''X'') None Map.empty 8 = (Inr (), db')"
    using init_sequence_absent[OF h1, of 0 99 5 9 "Some ''X''" None Map.empty 8] by simp
  from init_sequence_known_config[OF h1 g] show ?thesis using g by auto
qed

text \<open>
  C9, as stated, fails: \<open>init_sequence\<close> has no handler around the INSERT. On an empty
  table, when another transaction commits the row for \<open>order_no\<close> after the presence check,
  the call ends with the integrity error instead of succeeding.
\<close>

theorem init_sequence_swallows_duplicate_counterexample:
  "fst (init_sequence 0 empty_db (Member ORDER_NO) 1 1 1 None None [''order_no'' \<mapsto> order_row] 8)
     = Inl (IntegrityError ''order_no'')"
  by (simp add: init_sequence_def select_one_def empty_db_def others_commit_def insert_row_def
      Let_def)

text \<open>
  C9, amended. When the INSERT is rejected because a row for the key was committed after
  the presence check, the error reaches the caller; \<open>init_sequence\<close> issues no commit and
  the row the other transaction wrote stays as it is.
\<close>

theorem init_sequence_duplicate_insert_raises:
  assumes "pending db (key_of k) = None" and "key_of k \<in> dom rows"
  shows "init_sequence seed db k cv smin smax pfx desc rows now
           = (Inl (IntegrityError (key_of k)), others_commit rows db)
       \<and> tx_log (others_commit rows db) = tx_log db
       \<and> pending (others_commit rows db) (key_of k) = rows (key_of k)"
  using init_sequence_absent[OF assms(1), of seed cv smin smax pfx desc rows now] assms(2)
  by (auto simp: others_commit_def map_add_dom_app_simps)

theorem init_sequence_duplicate_insert_raises_witness:
  "init_sequence 0 empty_db (Str ''invoice'') 1 1 1 None None [''invoice'' \<mapsto> user_row] 8
     = (Inl (IntegrityError ''invoice''), others_commit [''invoice'' \<mapsto> user_row] empty_db)"
  using init_sequence_duplicate_insert_raises[of empty_db "Str ''invoice''" "[''invoice'' \<mapsto> user_row]" 0 1 1 1 None None 8]
  by (simp add: empty_db_def)

subsection \<open>Commits\<close>

text \<open>
  C10. After inserting a row \<open>init_sequence\<close> commits the session it was given: one
  COMMIT is logged, the locks are released and every pending row of the caller, not only
  the new one, becomes committed. When the row exists it returns without a commit.
  \<open>generate_sequence_id\<close> logs neither commit nor rollback, leaves the committed rows
  alone and keeps the locks.
\<close>

theorem init_sequence_commits:
  "(pending db (key_of k) = None \<and> key_of k \<notin> dom rows \<longrightarrow>
      (\<exists>db'. init_sequence seed db k cv smin smax pfx desc rows now = (Inr (), db')
          \<and> tx_log db' = tx_log db @ [COMMIT]
          \<and> committed db' = pending db'
          \<and> locks db' = {}
          \<and> (\<forall>k'. k' \<noteq> key_of k \<and> k' \<notin> dom rows \<longrightarrow> committed db' k' = pending db k')))
   \<and> (pending db (key_of k) \<noteq> None \<longrightarrow>
      init_sequence seed db k cv smin smax pfx desc rows now = (Inr (), db))
   \<and> tx_log (snd (generate_sequence_id db k wp wd fmt env)) = tx_log db
   \<and> committed (snd (generate_sequence_id db k wp wd fmt env)) = committed db
   \<and> locks db \<subseteq> locks (snd (generate_sequence_id db k wp wd fmt env))"
proof (intro conjI impI)
  assume a: "pending db (key_of k) = None \<and> key_of k \<notin> dom rows"
  show "\<exists>db'. init_sequence seed db k cv smin smax pfx desc rows now = (Inr (), db')
          \<and> tx_log db' = tx_log db @ [COMMIT]
          \<and> committed db' = pending db'
          \<and> locks db' = {}
          \<and> (\<forall>k'. k' \<noteq> key_of k \<and> k' \<notin> dom rows \<longrightarrow> committed db' k' = pending db k')"
    using init_sequence_absent[of db k seed cv smin smax pfx desc rows now] a
    by (auto simp: map_add_dom_app_simps)
next
  assume "pending db (key_of k) \<noteq> None"
  then show "init_sequence seed db k cv smin smax pfx desc rows now = (Inr (), db)"
    using init_sequence_present by auto
next
  show "tx_log (snd (generate_sequence_id db k wp wd fmt env)) = tx_log db"
    by (cases "pending db (key_of k)")
       (auto simp: generate_sequence_id_missing generate_sequence_id_found split: sum.splits)
  show "committed (snd (generate_sequence_id db k wp wd fmt env)) = committed db"
    by (cases "pending db (key_of k)")
       (auto simp: generate_sequence_id_missing generate_sequence_id_found split: sum.splits)
  show "locks db \<subseteq> locks (snd (generate_sequence_id db k wp wd fmt env))"
    by (cases "pending db (key_of k)")
       (auto simp: generate_sequence_id_missing generate_sequence_id_found split: sum.splits)
qed

theorem init_sequence_commits_witness:
  "\<exists>db'. init_sequence 0
            (snd (generate_sequence_id sample_db (Member USER_ID) False False [] (sample_env 4)))
            (Str ''invoice'') 1 1 1 None None Map.empty 9 = (Inr (), db')
     \<and> tx_log db' = [COMMIT]
     \<and> committed db' ''user_id''
         = Some (user_row\<lparr>current_value := 1000005, update_time := 7\<rparr>)
     \<and> tx_log (snd (generate_sequence_id sample_db (Member USER_ID) False False []
                   (sample_env 4))) = []"
proof -
  define db1 where
    "db1 = snd (generate_sequence_id sample_db (Member USER_ID) False False [] (sample_env 4))"
  have g: "db1 = sample_db\<lparr>locks := insert ''user_id'' (locks sample_db),
      pending := (pending sample_db)(''user_id'' \<mapsto>
        user_row\<lparr>current_value := 1000005, update_time := 7\<rparr>)\<rparr>"
    unfolding db1_def
    using generate_sequence_id_found[OF sample_db_user, of False False "[]" "sample_env 4"]
      sample_step_user
    by (simp add: user_row_def sample_env_def)
  have p: "pending db1 (key_of (Str ''invoice'')) = None"
    by (simp add: g sample_db_def sample_table_def)
  have l: "tx_log db1 = []" by (simp add: g sample_db_def)
  have u: "pending db1 ''user_id'' = Some (user_row\<lparr>current_value := 1000005, update_time := 7\<rparr>)"
    by (simp add: g)
  note t = init_sequence_commits[of db1 "Str ''invoice''" Map.empty 0 1 1 1 None None 9 False False "[]" "sample_env 4"]
  show ?thesis using t p l u unfolding db1_def[symmetric] by auto
qed

end
